theory Spec2Isabelle
  imports Main "HOL-Library.Sublist"
begin

section \<open>JavaScript strings\<close>

text \<open>
  A JavaScript string is a sequence of UTF-16 code units; \<open>length\<close>, \<open>substring\<close> and the
  regular expressions of the sources (none has the \<open>u\<close> flag) all count code units.
  A code unit is its number (below 65536; the program does no arithmetic on code units,
  so nothing wraps). \<open>js\<close> turns an ASCII literal into its code units.
\<close>

type_synonym jschar = nat
type_synonym jsstring = "jschar list"

definition js :: "string \<Rightarrow> jsstring" where
  "js s = map of_char s"

definition NL :: jschar where
  "NL = 0x0A"

definition DQ :: jschar where
  "DQ = 0x22"

text \<open>
  The class \<open>\s\<close> of a regular expression and the characters removed by \<open>trim()\<close> are the
  same set: WhiteSpace and LineTerminator of ECMAScript.
\<close>

definition isWhiteSpace :: "jschar \<Rightarrow> bool" where
  "isWhiteSpace c \<longleftrightarrow>
     c \<in> {0x09, 0x0A, 0x0B, 0x0C, 0x0D, 0x20, 0xA0, 0x1680,
          0x2028, 0x2029, 0x202F, 0x205F, 0x3000, 0xFEFF}
     \<or> (0x2000 \<le> c \<and> c \<le> 0x200A)"

definition trim :: "jsstring \<Rightarrow> jsstring" where
  "trim s = rev (dropWhile isWhiteSpace (rev (dropWhile isWhiteSpace s)))"

text \<open>\<open>Number.prototype.toString\<close> on a non-negative integer (an array length).\<close>

function decimal :: "nat \<Rightarrow> jsstring" where
  "decimal n = (if n < 10 then [0x30 + n] else decimal (n div 10) @ [0x30 + n mod 10])"
  by pat_completeness auto
termination
  by (relation "measure (\<lambda>n. n)") auto

declare decimal.simps [simp del]

text \<open>\<open>s.split(d)\<close> for a one-character separator: never empty, \<open>''''.split(d) = ['''']\<close>.\<close>

fun split_on :: "jschar \<Rightarrow> jsstring \<Rightarrow> jsstring list" where
  "split_on d [] = [[]]"
| "split_on d (c # cs) =
     (if c = d then [] # split_on d cs
      else (case split_on d cs of [] \<Rightarrow> [[c]] | p # ps \<Rightarrow> (c # p) # ps))"

section \<open>Regular expressions\<close>

text \<open>
  Every regular expression of the sources is a sequence of atoms: one character of a class,
  a greedy star of a class, or a lazy star of a class. \<open>rmatch r s\<close> is the backtracking
  match of \<open>r\<close> anchored at the start of \<open>s\<close>: the length of the match the engine finds first
  (a greedy star tries the longest run first, a lazy star the shortest), or \<open>None\<close>.
\<close>

datatype atom = One "jschar \<Rightarrow> bool" | Star "jschar \<Rightarrow> bool" | Lazy "jschar \<Rightarrow> bool"

type_synonym regex = "atom list"

fun rmatch :: "regex \<Rightarrow> jsstring \<Rightarrow> nat option" where
  "rmatch [] s = Some 0"
| "rmatch (One p # r) [] = None"
| "rmatch (One p # r) (c # cs) = (if p c then map_option Suc (rmatch r cs) else None)"
| "rmatch (Star p # r) [] = rmatch r []"
| "rmatch (Star p # r) (c # cs) =
     (if p c
      then (case rmatch (Star p # r) cs of
              Some n \<Rightarrow> Some (Suc n)
            | None \<Rightarrow> rmatch r (c # cs))
      else rmatch r (c # cs))"
| "rmatch (Lazy p # r) [] = rmatch r []"
| "rmatch (Lazy p # r) (c # cs) =
     (case rmatch r (c # cs) of
        Some n \<Rightarrow> Some n
      | None \<Rightarrow> if p c then map_option Suc (rmatch (Lazy p # r) cs) else None)"

text \<open>
  \<open>s.replace(/r/g, rep)\<close> for a replacement without \<open>$\<close>: scan from the left, replace each
  match and go on after it; after an empty match the next character is kept.
\<close>

fun replace_all :: "regex \<Rightarrow> jsstring \<Rightarrow> jsstring \<Rightarrow> jsstring" where
  "replace_all r rep [] = (case rmatch r [] of Some n \<Rightarrow> rep | None \<Rightarrow> [])"
| "replace_all r rep (c # cs) =
     (case rmatch r (c # cs) of
        None \<Rightarrow> c # replace_all r rep cs
      | Some 0 \<Rightarrow> rep @ c # replace_all r rep cs
      | Some (Suc n) \<Rightarrow> rep @ replace_all r rep (drop n cs))"

text \<open>\<open>occurs r s\<close>: the expression matches somewhere in \<open>s\<close>.\<close>

fun occurs :: "regex \<Rightarrow> jsstring \<Rightarrow> bool" where
  "occurs r [] = (rmatch r [] \<noteq> None)"
| "occurs r (c # cs) = (rmatch r (c # cs) \<noteq> None \<or> occurs r cs)"

text \<open>
  Character classes. Under the \<open>i\<close> flag (without \<open>u\<close>) an ASCII letter of the pattern
  matches its two ASCII cases only: canonicalisation never maps a code unit above 127 to
  one below 128.
\<close>

definition upper :: "jschar \<Rightarrow> jschar" where
  "upper c = (if 0x61 \<le> c \<and> c \<le> 0x7A then c - 0x20 else c)"

definition ci :: "jschar \<Rightarrow> jschar \<Rightarrow> bool" where
  "ci x c \<longleftrightarrow> upper c = upper x"

definition lit_ci :: "string \<Rightarrow> regex" where
  "lit_ci s = map (\<lambda>x. One (ci x)) (js s)"

definition not_ch :: "jschar \<Rightarrow> jschar \<Rightarrow> bool" where
  "not_ch x c \<longleftrightarrow> c \<noteq> x"

definition any_ch :: "jschar \<Rightarrow> bool" where
  "any_ch c \<longleftrightarrow> True"

definition GT :: jschar where
  "GT = 0x3E"

definition LT :: jschar where
  "LT = 0x3C"

text \<open>\<open>/<tag[^>]*>[\s\S]*?<\/tag>/gi\<close>\<close>

definition element :: "string \<Rightarrow> regex" where
  "element tag =
     lit_ci (''<'' @ tag) @ [Star (not_ch GT)] @ lit_ci ''>'' @ [Lazy any_ch]
     @ lit_ci (''</'' @ tag @ ''>'')"

text \<open>\<open>/<div[^>]*attr="[^"]*token[^"]*"[^>]*>[\s\S]*?<\/div>/gi\<close>\<close>

definition div_with :: "string \<Rightarrow> string \<Rightarrow> regex" where
  "div_with attr token =
     lit_ci ''<div'' @ [Star (not_ch GT)] @ lit_ci (attr @ ''='') @ [One (ci DQ)]
     @ [Star (not_ch DQ)] @ lit_ci token @ [Star (not_ch DQ)] @ [One (ci DQ)]
     @ [Star (not_ch GT)] @ lit_ci ''>'' @ [Lazy any_ch] @ lit_ci ''</div>''"

text \<open>\<open>/<img[^>]*attr="[^"]*token[^"]*"[^>]*>/gi\<close>\<close>

definition img_with :: "string \<Rightarrow> string \<Rightarrow> regex" where
  "img_with attr token =
     lit_ci ''<img'' @ [Star (not_ch GT)] @ lit_ci (attr @ ''='') @ [One (ci DQ)]
     @ [Star (not_ch DQ)] @ lit_ci token @ [Star (not_ch DQ)] @ [One (ci DQ)]
     @ [Star (not_ch GT)] @ lit_ci ''>''"

text \<open>\<open>/\s+/g\<close>, \<open>/\n\s*\n/g\<close>, \<open>/\n+/g\<close> and \<open>/[#*`]/g\<close>\<close>

definition ws_plus :: regex where
  "ws_plus = [One isWhiteSpace, Star isWhiteSpace]"

definition blank_lines :: regex where
  "blank_lines = [One (\<lambda>c. c = NL), Star isWhiteSpace, One (\<lambda>c. c = NL)]"

definition nl_plus :: regex where
  "nl_plus = [One (\<lambda>c. c = NL), Star (\<lambda>c. c = NL)]"

definition isMarker :: "jschar \<Rightarrow> bool" where
  "isMarker c \<longleftrightarrow> c \<in> {0x23, 0x2A, 0x60}"

definition md_markers :: regex where
  "md_markers = [One isMarker]"

section \<open>The structure cleaner (utils/markdown.ts)\<close>

text \<open>
  The patterns removed by \<open>cleanHtmlContent\<close>, in the order of the source: script, style,
  nav, header, footer, div with an ad class, div with an ad id, aside, div with a share
  class, div with a social class, img with a logo alt, img with an icon class.
\<close>

definition noise_patterns :: "regex list" where
  "noise_patterns =
     [element ''script'', element ''style'', element ''nav'', element ''header'',
      element ''footer'', div_with ''class'' ''ad'', div_with ''id'' ''ad'',
      element ''aside'', div_with ''class'' ''share'', div_with ''class'' ''social'',
      img_with ''alt'' ''logo'', img_with ''class'' ''icon'']"

text \<open>
  \<open>cleanHtmlContent\<close> is called on a string (its only caller has already returned on a
  null or blank content), so the guard \<open>!html || typeof html !== 'string'\<close> is the test for
  the empty string. Each \<open>html = html.replace(p, '')\<close> of the source is one step of the
  fold, then come the two whitespace replacements and \<open>trim\<close>.
\<close>

definition cleanHtmlContent :: "jsstring \<Rightarrow> jsstring" where
  "cleanHtmlContent html =
     (if html = [] then html
      else
        (let html = foldl (\<lambda>h p. replace_all p [] h) html noise_patterns;
             html = replace_all ws_plus (js '' '') html;
             html = replace_all blank_lines [NL] html
         in trim html))"

text \<open>
  Whitespace normalisation as the specification words it: every maximal run of whitespace
  becomes one space, and the ends are trimmed.
\<close>

function collapse_ws :: "jsstring \<Rightarrow> jsstring" where
  "collapse_ws [] = []"
| "collapse_ws (c # cs) =
     (if isWhiteSpace c then 0x20 # collapse_ws (dropWhile isWhiteSpace cs)
      else c # collapse_ws cs)"
  by pat_completeness auto
termination
  by (relation "measure length") (auto simp: less_Suc_eq_le length_dropWhile_le)

definition normalize_ws :: "jsstring \<Rightarrow> jsstring" where
  "normalize_ws s = trim (collapse_ws s)"

definition has_noise :: "jsstring \<Rightarrow> bool" where
  "has_noise html = list_ex (\<lambda>p. occurs p html) noise_patterns"

text \<open>The input after the twelve removals, before the whitespace steps.\<close>

definition without_noise :: "jsstring \<Rightarrow> jsstring" where
  "without_noise html = foldl (\<lambda>h p. replace_all p [] h) html noise_patterns"

section \<open>The summary extractor (utils/markdown.ts, inside the aggregator)\<close>

text \<open>
  \<open>stripped\<close> is \<open>cleanText.replace(/[#*`]/g, '').replace(/\n+/g, ' ').trim()\<close>,
  \<open>summary\<close> is \<open>stripped.substring(0, 200).trim()\<close> and \<open>displaySummary\<close> appends the
  ellipsis when \<open>summary.length < stripped.length\<close>. The source writes the limit 200 in
  place; here it is the parameter \<open>limit\<close>, and the aggregator passes 200.
\<close>

definition stripped :: "jsstring \<Rightarrow> jsstring" where
  "stripped cleanText = trim (replace_all nl_plus (js '' '') (replace_all md_markers [] cleanText))"

definition summary :: "nat \<Rightarrow> jsstring \<Rightarrow> jsstring" where
  "summary limit cleanText = trim (take limit (stripped cleanText))"

definition displaySummary :: "nat \<Rightarrow> jsstring \<Rightarrow> jsstring" where
  "displaySummary limit cleanText =
     (if length (summary limit cleanText) < length (stripped cleanText)
      then summary limit cleanText @ js ''...''
      else summary limit cleanText)"

text \<open>
  The summary as the specification words it: the markers \<open>#\<close>, \<open>*\<close> and backquote are
  dropped, every run of newlines becomes one space, the text is trimmed; a text longer
  than the limit is cut at the limit, trimmed again, and followed by the ellipsis.
\<close>

function collapse_nl :: "jsstring \<Rightarrow> jsstring" where
  "collapse_nl [] = []"
| "collapse_nl (c # cs) =
     (if c = NL then 0x20 # collapse_nl (dropWhile (\<lambda>c. c = NL) cs)
      else c # collapse_nl cs)"
  by pat_completeness auto
termination
  by (relation "measure length") (auto simp: less_Suc_eq_le length_dropWhile_le)

definition summary_spec :: "nat \<Rightarrow> jsstring \<Rightarrow> jsstring" where
  "summary_spec limit md =
     (let t = trim (collapse_nl (filter (\<lambda>c. c \<notin> {0x23, 0x2A, 0x60}) md))
      in if limit < length t then trim (take limit t) @ js ''...'' else t)"

section \<open>The conversion gateway and the normalizer (utils/markdown.ts)\<close>

text \<open>
  Values that are not known to be strings: the content of a result may be \<open>null\<close>, and the
  backend binding has type \<open>any\<close>, so the \<open>data\<close> it hands back may be absent or falsy
  (\<open>Undefined\<close>), a string, or a truthy value that is not a string (\<open>Obj\<close>).
\<close>

datatype js_error = TypeError | BackendError

datatype jsval = Undefined | Str jsstring | Obj

definition truthy :: "jsval \<Rightarrow> bool" where
  "truthy v = (case v of Undefined \<Rightarrow> False | Str s \<Rightarrow> s \<noteq> [] | Obj \<Rightarrow> True)"

record conversion =
  format :: jsstring
  data :: jsval

text \<open>
  One call of \<open>env.AI.toMarkdown\<close>: it throws, rejects or times out (\<open>Rejects\<close>), or
  resolves with nothing (\<open>Resolves None\<close>) or with an array whose entries are records or
  \<open>null\<close>. The backend is an external service: it maps its own state, the submitted
  content and the mime type to an outcome and a new state.
\<close>

datatype ai_outcome = Rejects | Resolves "conversion option list option"

type_synonym 's ai = "'s \<Rightarrow> jsstring \<Rightarrow> jsstring \<Rightarrow> ai_outcome \<times> 's"

text \<open>The body of the \<open>try\<close> block of \<open>convertToMarkdown\<close>.\<close>

definition convert_attempt ::
  "'s ai \<Rightarrow> jsstring \<Rightarrow> jsstring \<Rightarrow> 's \<Rightarrow> (js_error + jsval) \<times> 's" where
  "convert_attempt toMarkdown content mimeType s =
     (let processedContent =
            (if mimeType = js ''text/html'' then cleanHtmlContent content else content);
          (markdownResult, s') = toMarkdown s processedContent mimeType
      in (case markdownResult of
            Rejects \<Rightarrow> Inl BackendError
          | Resolves None \<Rightarrow> Inr (Str content)
          | Resolves (Some []) \<Rightarrow> Inr (Str content)
          | Resolves (Some (None # rest)) \<Rightarrow> Inl TypeError
          | Resolves (Some (Some conversion # rest)) \<Rightarrow>
              if format conversion = js ''markdown'' \<and> truthy (data conversion)
              then Inr (data conversion)
              else Inr (Str content),
          s'))"

text \<open>
  \<open>convertToMarkdown(content, env, mimeType)\<close>; \<open>env\<close> is \<open>None\<close> when the environment or
  its \<open>AI\<close> binding is missing. A \<open>null\<close> content is returned as it is.
\<close>

definition convertToMarkdown ::
  "jsstring option \<Rightarrow> 's ai option \<Rightarrow> jsstring \<Rightarrow> 's \<Rightarrow> (js_error + jsval) \<times> 's" where
  "convertToMarkdown content env mimeType s =
     (case content of
        None \<Rightarrow> (Inr Undefined, s)
      | Some c \<Rightarrow>
          if c = [] \<or> trim c = [] then (Inr (Str c), s)
          else
            (case env of
               None \<Rightarrow> (Inr (Str c), s)
             | Some toMarkdown \<Rightarrow>
                 (case convert_attempt toMarkdown c mimeType s of
                    (Inl error, s') \<Rightarrow> (Inr (Str c), s')
                  | (Inr v, s') \<Rightarrow> (Inr v, s'))))"

text \<open>
  The content the normalizer submits to the backend, and the outcomes of the backend that
  the normalizer does not accept as a conversion (the specification's \<open>Failed\<close>).
\<close>

definition submitted :: "jsstring \<Rightarrow> jsstring \<Rightarrow> jsstring" where
  "submitted mimeType c = (if mimeType = js ''text/html'' then cleanHtmlContent c else c)"

definition conversion_failed :: "ai_outcome \<Rightarrow> bool" where
  "conversion_failed out =
     (case out of
        Rejects \<Rightarrow> True
      | Resolves None \<Rightarrow> True
      | Resolves (Some []) \<Rightarrow> True
      | Resolves (Some (None # rest)) \<Rightarrow> True
      | Resolves (Some (Some conversion # rest)) \<Rightarrow>
          (if format conversion = js ''markdown''
           then (if truthy (data conversion) then False else True)
           else True))"

text \<open>A backend whose every call fails.\<close>

definition rejecting :: "unit ai" where
  "rejecting s content mimeType = (Rejects, s)"

section \<open>The result aggregator (utils/markdown.ts)\<close>

text \<open>
  The fields of \<open>ExaSearchResult\<close> that the aggregator reads. An absent author or date is
  the empty string (both are falsy); the text may be \<open>null\<close>.
\<close>

record ExaSearchResult =
  result_id :: jsstring
  title :: jsstring
  url :: jsstring
  publishedDate :: jsstring
  author :: jsstring
  result_text :: "jsstring option"

definition title_line :: "ExaSearchResult \<Rightarrow> jsstring" where
  "title_line result = js ''### ['' @ title result @ js ''](''  @ url result @ js '')'' @ [NL]"

text \<open>
  The \<open>try\<close> block after the normalizer has returned \<open>cleanText\<close>: \<open>cleanText.replace\<close>
  raises a TypeError unless \<open>cleanText\<close> is a string, before anything is appended.
  \<open>toLocaleDateString\<close> stands for \<open>new Date(d).toLocaleDateString()\<close>, which depends on
  the locale of the host and never throws.
\<close>

definition render_result ::
  "(jsstring \<Rightarrow> jsstring) \<Rightarrow> ExaSearchResult \<Rightarrow> jsval \<Rightarrow> js_error + jsstring" where
  "render_result toLocaleDateString result cleanText =
     (case cleanText of
        Str s \<Rightarrow>
          Inr (title_line result
               @ (if author result \<noteq> []
                  then js ''**Author:** '' @ author result @ js ''  '' @ [NL] else [])
               @ (if publishedDate result \<noteq> []
                  then js ''**Published:** '' @ toLocaleDateString (publishedDate result)
                       @ js ''  '' @ [NL]
                  else [])
               @ displaySummary 200 s @ [NL, NL])
      | Undefined \<Rightarrow> Inl TypeError
      | Obj \<Rightarrow> Inl TypeError)"

text \<open>The \<open>catch\<close> block: \<open>result.text.substring\<close> raises a TypeError on a \<open>null\<close> text.\<close>

definition render_fallback :: "ExaSearchResult \<Rightarrow> js_error + jsstring" where
  "render_fallback result =
     (case result_text result of
        None \<Rightarrow> Inl TypeError
      | Some t \<Rightarrow> Inr (title_line result @ take 200 t @ js ''...'' @ [NL, NL]))"

text \<open>
  The body of the \<open>for\<close> loop: the section it appends to \<open>markdown\<close>. Whatever
  raises inside the \<open>try\<close> block (the normalizer, or \<open>cleanText.replace\<close>) does so
  before the first append, and the \<open>catch\<close> block then appends the fallback section, or
  raises itself.
\<close>

definition render_item ::
  "(jsstring \<Rightarrow> jsstring) \<Rightarrow> 's ai option \<Rightarrow> ExaSearchResult \<Rightarrow> 's
     \<Rightarrow> (js_error + jsstring) \<times> 's" where
  "render_item toLocaleDateString env result s =
     (case convertToMarkdown (result_text result) env (js ''text/html'') s of
        (converted, s') \<Rightarrow>
          (case (case converted of
                   Inl error \<Rightarrow> Inl error
                 | Inr cleanText \<Rightarrow> render_result toLocaleDateString result cleanText) of
             Inr section \<Rightarrow> (Inr section, s')
           | Inl error \<Rightarrow> (render_fallback result, s')))"

text \<open>The \<open>for\<close> loop over \<open>results.slice(0, 10)\<close>, appending to \<open>markdown\<close>.\<close>

fun render_results ::
  "(jsstring \<Rightarrow> jsstring) \<Rightarrow> 's ai option \<Rightarrow> ExaSearchResult list \<Rightarrow> jsstring \<Rightarrow> 's
     \<Rightarrow> (js_error + jsstring) \<times> 's" where
  "render_results toLocaleDateString env [] markdown s = (Inr markdown, s)"
| "render_results toLocaleDateString env (result # rest) markdown s =
     (case render_item toLocaleDateString env result s of
        (Inr section, s') \<Rightarrow> render_results toLocaleDateString env rest (markdown @ section) s'
      | (Inl error, s') \<Rightarrow> (Inl error, s'))"

definition no_results_message :: "jsstring \<Rightarrow> jsstring" where
  "no_results_message query = js ''No search results found for '' @ [DQ] @ query @ [DQ] @ js ''.''"

text \<open>The magnifying glass of the header is U+1F50D, two code units.\<close>

definition header :: "jsstring \<Rightarrow> jsstring" where
  "header query =
     js ''## '' @ [0xD83D, 0xDD0D] @ js '' Search Results for '' @ [DQ] @ query @ [DQ, NL, NL]"

definition overflow_note :: "nat \<Rightarrow> jsstring" where
  "overflow_note n =
     (if n > 10 then js ''*And '' @ decimal (n - 10) @ js '' more results...*'' @ [NL, NL] else [])"

text \<open>\<open>results\<close> is \<open>None\<close> when the argument is \<open>null\<close> or \<open>undefined\<close>.\<close>

definition formatSearchResultsToMarkdown ::
  "(jsstring \<Rightarrow> jsstring) \<Rightarrow> ExaSearchResult list option \<Rightarrow> jsstring \<Rightarrow> 's ai option \<Rightarrow> 's
     \<Rightarrow> (js_error + jsstring) \<times> 's" where
  "formatSearchResultsToMarkdown toLocaleDateString results query env s =
     (case results of
        None \<Rightarrow> (Inr (no_results_message query), s)
      | Some rs \<Rightarrow>
          if length rs = 0 then (Inr (no_results_message query), s)
          else
            (case render_results toLocaleDateString env (take 10 rs) (header query) s of
               (Inl error, s') \<Rightarrow> (Inl error, s')
             | (Inr markdown, s') \<Rightarrow> (Inr (markdown @ overflow_note (length rs)), s')))"


definition item_section ::
  "(jsstring \<Rightarrow> jsstring) \<Rightarrow> ExaSearchResult \<Rightarrow> jsstring \<Rightarrow> jsstring" where
  "item_section toLocaleDateString item md =
     js ''### ['' @ title item @ js ''](''  @ url item @ js '')'' @ [NL]
     @ (if author item = [] then [] else js ''**Author:** '' @ author item @ js ''  '' @ [NL])
     @ (if publishedDate item = [] then []
        else js ''**Published:** '' @ toLocaleDateString (publishedDate item) @ js ''  '' @ [NL])
     @ summary_spec 200 md @ [NL, NL]"



text \<open>
  Sample inputs: fifteen results with distinct titles, and three results of which the
  second has a \<open>null\<close> text.
\<close>

definition sample_item :: "nat \<Rightarrow> ExaSearchResult" where
  "sample_item n =
     \<lparr>result_id = decimal n, title = js ''T'' @ decimal n, url = js ''u'',
      publishedDate = [], author = js ''A'', result_text = Some (js ''x'')\<rparr>"


definition null_text_results :: "ExaSearchResult list" where
  "null_text_results =
     [sample_item 1, (sample_item 2)\<lparr>result_text := None\<rparr>, sample_item 3]"





section \<open>Capability activation (worker.ts)\<close>

record tool_info =
  name :: jsstring
  description :: jsstring
  enabled :: bool

definition availableTools :: "(jsstring \<times> tool_info) list" where
  "availableTools =
     [(js ''web_search_exa'',
         \<lparr>name = js ''Web Search (Exa)'',
          description = js ''Real-time web search using Exa AI'', enabled = True\<rparr>),
      (js ''get_code_context_exa'',
         \<lparr>name = js ''Code Context Search'',
          description = js ''Search for code snippets, examples, and documentation from open source repositories'',
          enabled = True\<rparr>),
      (js ''deep_search_exa'',
         \<lparr>name = js ''Deep Search (Exa)'',
          description = js ''Advanced web search with query expansion and high-quality summaries'',
          enabled = False\<rparr>),
      (js ''crawling_exa'',
         \<lparr>name = js ''Web Crawling'',
          description = js ''Extract content from specific URLs'', enabled = False\<rparr>),
      (js ''deep_researcher_start'',
         \<lparr>name = js ''Deep Researcher Start'',
          description = js ''Start a comprehensive AI research task'', enabled = False\<rparr>),
      (js ''deep_researcher_check'',
         \<lparr>name = js ''Deep Researcher Check'',
          description = js ''Check status and retrieve results of research task'',
          enabled = False\<rparr>),
      (js ''linkedin_search_exa'',
         \<lparr>name = js ''LinkedIn Search'',
          description = js ''Search LinkedIn profiles and companies'', enabled = False\<rparr>),
      (js ''company_research_exa'',
         \<lparr>name = js ''Company Research'',
          description = js ''Research companies and organizations'', enabled = False\<rparr>)]"

text \<open>\<open>env.ENABLED_TOOLS\<close>: a comma-separated string or an array.\<close>

datatype tools_param = ToolsString jsstring | ToolsArray "jsstring list"

text \<open>
  \<open>parsedEnabledTools\<close> of \<open>fetch\<close>: \<open>None\<close> is \<open>undefined\<close>. An absent or empty string is
  falsy; an array is taken as it is.
\<close>

definition parsedEnabledTools :: "tools_param option \<Rightarrow> jsstring list option" where
  "parsedEnabledTools toolsParam =
     (case toolsParam of
        None \<Rightarrow> None
      | Some (ToolsString str) \<Rightarrow>
          if str = [] then None
          else Some (filter (\<lambda>tool. length tool > 0) (map trim (split_on 0x2C str)))
      | Some (ToolsArray arr) \<Rightarrow> Some arr)"

text \<open>
  \<open>shouldRegisterTool\<close>; the catalog is a parameter (the source reads \<open>availableTools\<close>),
  and \<open>catalog[toolId]?.enabled ?? false\<close> is \<open>False\<close> for an id without an entry.
\<close>

definition shouldRegisterTool ::
  "(jsstring \<rightharpoonup> tool_info) \<Rightarrow> jsstring list option \<Rightarrow> jsstring \<Rightarrow> bool" where
  "shouldRegisterTool catalog enabledTools toolId =
     (case enabledTools of
        Some tools \<Rightarrow>
          if length tools > 0 then toolId \<in> set tools
          else (case catalog toolId of Some t \<Rightarrow> enabled t | None \<Rightarrow> False)
      | None \<Rightarrow> (case catalog toolId of Some t \<Rightarrow> enabled t | None \<Rightarrow> False))"

text \<open>The set of active ids, and the default-enabled entries of a catalog.\<close>

definition resolve :: "(jsstring \<rightharpoonup> tool_info) \<Rightarrow> tools_param option \<Rightarrow> jsstring set" where
  "resolve catalog toolsParam = {t. shouldRegisterTool catalog (parsedEnabledTools toolsParam) t}"

definition default_enabled :: "(jsstring \<rightharpoonup> tool_info) \<Rightarrow> jsstring set" where
  "default_enabled catalog = {t. \<exists>info. catalog t = Some info \<and> enabled info}"

section \<open>The web search tool (tools/webSearch.ts)\<close>

text \<open>
  What the request to the search API comes to: an axios error (with the status and the
  message of the response body when there are any), another exception, or a response
  whose \<open>data\<close> and \<open>data.results\<close> may be missing.
\<close>

record axios_error =
  status :: "nat option"
  body_message :: "jsstring option"
  error_message :: jsstring

record response_data =
  results :: "ExaSearchResult list option"

datatype upstream = AxiosError axios_error | OtherError jsstring | Response "response_data option"

record tool_result =
  content_text :: jsstring
  isError :: bool

definition empty_result_text :: jsstring where
  "empty_result_text = js ''No search results found. Please try a different query.''"

text \<open>
  The handler of \<open>web_search_exa\<close>. \<open>isError = False\<close> is a result without the flag;
  \<open>message_of\<close> gives the message of an exception of the aggregator, which the engine words.
\<close>

definition web_search_exa ::
  "(jsstring \<Rightarrow> jsstring) \<Rightarrow> (js_error \<Rightarrow> jsstring) \<Rightarrow> 's ai option \<Rightarrow> jsstring \<Rightarrow> upstream \<Rightarrow> 's
     \<Rightarrow> tool_result \<times> 's" where
  "web_search_exa toLocaleDateString message_of env query response s =
     (case response of
        AxiosError error \<Rightarrow>
          (let statusCode = (case status error of
                               None \<Rightarrow> js ''unknown''
                             | Some n \<Rightarrow> if n = 0 then js ''unknown'' else decimal n);
               errorMessage = (case body_message error of
                                 None \<Rightarrow> error_message error
                               | Some m \<Rightarrow> if m = [] then error_message error else m)
           in (\<lparr>content_text = js ''Search error ('' @ statusCode @ js ''): '' @ errorMessage,
                isError = True\<rparr>, s))
      | OtherError msg \<Rightarrow> (\<lparr>content_text = js ''Search error: '' @ msg, isError = True\<rparr>, s)
      | Response d \<Rightarrow>
          (case d of
             None \<Rightarrow> (\<lparr>content_text = empty_result_text, isError = False\<rparr>, s)
           | Some d' \<Rightarrow>
               (case results d' of
                  None \<Rightarrow> (\<lparr>content_text = empty_result_text, isError = False\<rparr>, s)
                | Some rs \<Rightarrow>
                    if length rs = 0
                    then (\<lparr>content_text = empty_result_text, isError = False\<rparr>, s)
                    else
                      (case formatSearchResultsToMarkdown toLocaleDateString (Some rs) query env s of
                         (Inr markdownContent, s') \<Rightarrow>
                           (\<lparr>content_text = markdownContent, isError = False\<rparr>, s')
                       | (Inl error, s') \<Rightarrow>
                           (\<lparr>content_text = js ''Search error: '' @ message_of error,
                             isError = True\<rparr>, s')))))"

section \<open>Strings and regular expressions: lemmas\<close>

lemmas clean_eval = cleanHtmlContent_def js_def noise_patterns_def element_def
  div_with_def img_with_def lit_ci_def ci_def upper_def not_ch_def any_ch_def GT_def DQ_def NL_def
  ws_plus_def blank_lines_def trim_def isWhiteSpace_def

lemmas summary_eval = displaySummary_def summary_def stripped_def md_markers_def nl_plus_def
  isMarker_def trim_def isWhiteSpace_def js_def NL_def

lemma rmatch_le: "rmatch r s = Some n \<Longrightarrow> n \<le> length s"
  by (induction r s arbitrary: n rule: rmatch.induct) (auto split: if_splits option.splits)

lemma replace_all_no_occurs: "\<not> occurs r s \<Longrightarrow> replace_all r rep s = s"
  by (induction s) auto

lemma occurs_One_none: "\<forall>c \<in> set s. \<not> p c \<Longrightarrow> \<not> occurs (One p # r) s"
  by (induction s) auto

lemma rmatch_Star_only: "rmatch [Star p] s = Some (length (takeWhile p s))"
  by (induction s) auto

lemma rmatch_ws_plus:
  "rmatch ws_plus (c # cs) =
     (if isWhiteSpace c then Some (Suc (length (takeWhile isWhiteSpace cs))) else None)"
  by (simp add: ws_plus_def rmatch_Star_only)

lemma rmatch_nl_plus:
  "rmatch nl_plus (c # cs) =
     (if c = NL then Some (Suc (length (takeWhile (\<lambda>c. c = NL) cs))) else None)"
  by (simp add: nl_plus_def rmatch_Star_only)

lemma drop_takeWhile_len: "drop (length (takeWhile p xs)) xs = dropWhile p xs"
  by (induction xs) auto

lemma replace_One_filter: "replace_all [One p] [] s = filter (\<lambda>c. \<not> p c) s"
  by (induction s) auto

lemma replace_ws_plus: "replace_all ws_plus (js '' '') s = collapse_ws s"
proof (induction s rule: collapse_ws.induct)
  case 1
  show ?case by (simp add: ws_plus_def)
next
  case (2 c cs)
  then show ?case
    by (auto simp: rmatch_ws_plus drop_takeWhile_len js_def)
qed

lemma collapse_ws_chars: "x \<in> set (collapse_ws s) \<Longrightarrow> isWhiteSpace x \<Longrightarrow> x = 0x20"
  by (induction s rule: collapse_ws.induct) (auto split: if_splits)

lemma NL_ws: "isWhiteSpace NL"
  by (simp add: isWhiteSpace_def NL_def)

lemma NL_notin_collapse: "NL \<notin> set (collapse_ws s)"
  using collapse_ws_chars[of NL s] NL_ws by (auto simp: NL_def)

lemma NL_notin_replace_nl: "NL \<notin> set (replace_all nl_plus (js '' '') s)"
proof (induction "length s" arbitrary: s rule: less_induct)
  case less
  show ?case
  proof (cases s)
    case Nil
    then show ?thesis by (simp add: nl_plus_def)
  next
    case (Cons c cs)
    have "length (dropWhile (\<lambda>c. c = NL) cs) < length s"
      using Cons by (simp add: less_Suc_eq_le length_dropWhile_le)
    with less Cons show ?thesis
      by (auto simp: rmatch_nl_plus drop_takeWhile_len js_def NL_def)
  qed
qed

lemma set_replace_nl: "set (replace_all nl_plus (js '' '') t) \<subseteq> set t \<union> {0x20}"
proof (induction "length t" arbitrary: t rule: less_induct)
  case less
  show ?case
  proof (cases t)
    case Nil
    then show ?thesis by (simp add: nl_plus_def)
  next
    case (Cons c cs)
    have l: "length (dropWhile (\<lambda>c. c = NL) cs) < length t"
      using Cons by (simp add: less_Suc_eq_le length_dropWhile_le)
    have "set (dropWhile (\<lambda>c. c = NL) cs) \<subseteq> set cs"
      by (meson set_dropWhileD subsetI)
    with less(1)[OF l] less(1)[of cs] Cons show ?thesis
      by (auto simp: rmatch_nl_plus drop_takeWhile_len js_def)
  qed
qed

lemma set_trim: "set (trim s) \<subseteq> set s"
  unfolding trim_def
  by (metis set_dropWhileD set_rev subsetI)

lemma length_trim: "length (trim s) \<le> length s"
  unfolding trim_def
  by (metis length_dropWhile_le length_rev order_trans)

lemma dropWhile_rev_fix:
  assumes "a = [] \<or> \<not> P (hd a)"
  shows "dropWhile P (rev (dropWhile P (rev a))) = rev (dropWhile P (rev a))"
proof (cases "dropWhile P (rev a)")
  case Nil
  then show ?thesis by (simp del: dropWhile_eq_Nil_conv)
next
  case (Cons y ys)
  then have ne: "a \<noteq> []" by auto
  have "\<exists>zs. rev a = zs @ dropWhile P (rev a)"
    by (metis takeWhile_dropWhile_id)
  then obtain zs where zs: "rev a = zs @ (y # ys)" using Cons by auto
  have "last (y # ys) = last (rev a)" using zs by simp
  also have "\<dots> = hd a" using ne by (simp add: last_rev)
  finally have "\<not> P (last (y # ys))" using assms ne by simp
  then have "\<not> P (hd (rev (y # ys)))" by (metis hd_rev list.distinct(1))
  then have "dropWhile P (rev (y # ys)) = rev (y # ys)"
    by (cases "rev (y # ys)") auto
  then show ?thesis using Cons by simp
qed

lemma trim_idem: "trim (trim s) = trim s"
proof -
  have h: "dropWhile isWhiteSpace s = [] \<or> \<not> isWhiteSpace (hd (dropWhile isWhiteSpace s))"
    by (metis hd_dropWhile)
  show ?thesis
    unfolding trim_def
    by (simp add: dropWhile_rev_fix[of "dropWhile isWhiteSpace s" isWhiteSpace, OF h])
qed

section \<open>The structure cleaner: properties\<close>

lemma blank_lines_identity: "NL \<notin> set t \<Longrightarrow> replace_all blank_lines rep t = t"
proof -
  assume "NL \<notin> set t"
  then have "\<forall>c \<in> set t. \<not> (\<lambda>c. c = NL) c" by auto
  then have "\<not> occurs blank_lines t"
    unfolding blank_lines_def by (rule occurs_One_none)
  then show ?thesis by (rule replace_all_no_occurs)
qed

lemma clean_nonempty:
  "html \<noteq> [] \<Longrightarrow> cleanHtmlContent html = trim (collapse_ws (without_noise html))"
  by (simp add: cleanHtmlContent_def without_noise_def Let_def replace_ws_plus
      blank_lines_identity NL_notin_collapse)

lemma clean_characterised:
  "cleanHtmlContent html = (if html = [] then [] else trim (collapse_ws (without_noise html)))"
  by (simp add: clean_nonempty) (simp add: cleanHtmlContent_def)

lemma clean_ws_chars: "set (cleanHtmlContent html) \<inter> {c. isWhiteSpace c} \<subseteq> {0x20}"
proof (cases "html = []")
  case True
  then show ?thesis by (simp add: cleanHtmlContent_def)
next
  case False
  have "set (trim (collapse_ws (without_noise html))) \<subseteq> set (collapse_ws (without_noise html))"
    by (rule set_trim)
  then show ?thesis
    using False collapse_ws_chars[of _ "without_noise html"] by (auto simp: clean_nonempty)
qed

lemma NL_notin_clean: "NL \<notin> set (cleanHtmlContent html)"
proof
  assume "NL \<in> set (cleanHtmlContent html)"
  then have "NL = 0x20" using clean_ws_chars[of html] NL_ws by auto
  then show False by (simp add: NL_def)
qed

lemma fold_no_noise:
  "\<forall>p \<in> set ps. \<not> occurs p h \<Longrightarrow> foldl (\<lambda>h p. replace_all p [] h) h ps = h"
  by (induction ps) (simp_all add: replace_all_no_occurs)

lemma ci_LT: "ci LT c \<longleftrightarrow> c = LT"
  by (auto simp: ci_def upper_def LT_def)

lemma noise_starts_LT: "p \<in> set noise_patterns \<Longrightarrow> \<exists>r. p = One (ci LT) # r"
  by (auto simp: noise_patterns_def element_def div_with_def img_with_def lit_ci_def js_def LT_def)

lemma plain_no_noise: "LT \<notin> set html \<Longrightarrow> \<not> has_noise html"
proof -
  assume a: "LT \<notin> set html"
  have "\<not> occurs p html" if "p \<in> set noise_patterns" for p
  proof -
    from that obtain r where p: "p = One (ci LT) # r" using noise_starts_LT by blast
    have "\<forall>c \<in> set html. \<not> ci LT c" using a by (auto simp: ci_LT)
    then show ?thesis unfolding p by (rule occurs_One_none)
  qed
  then show ?thesis by (simp add: has_noise_def list_ex_iff)
qed

lemma without_noise_id: "\<not> has_noise html \<Longrightarrow> without_noise html = html"
  unfolding without_noise_def
  by (rule fold_no_noise) (simp add: has_noise_def list_ex_iff)

text \<open>
  C9. For every input the cleaner returns the text left by the twelve removals with every
  maximal run of whitespace (newlines included) turned into one space, and the ends
  trimmed: its whitespace step \<open>replace(/\s+/g, ' ')\<close> is \<open>collapse_ws\<close>, and the
  replacement of blank lines that follows it changes nothing, since no newline is left.
  So the output of the cleaner holds no newline and no whitespace character but the
  space, whatever the input: no line structure of the input survives.
\<close>

theorem cleaner_whitespace:
  "cleanHtmlContent html
     = (if html = [] then [] else trim (collapse_ws (without_noise html)))
   \<and> replace_all ws_plus (js '' '') (without_noise html) = collapse_ws (without_noise html)
   \<and> replace_all blank_lines [NL] (replace_all ws_plus (js '' '') (without_noise html))
       = replace_all ws_plus (js '' '') (without_noise html)
   \<and> NL \<notin> set (cleanHtmlContent html)
   \<and> set (cleanHtmlContent html) \<inter> {c. isWhiteSpace c} \<subseteq> {0x20}
   \<and> replace_all ws_plus (js '' '') s = collapse_ws s
   \<and> set (collapse_ws s) \<inter> {c. isWhiteSpace c} \<subseteq> {0x20}
   \<and> replace_all blank_lines [NL] (replace_all ws_plus (js '' '') s)
       = replace_all ws_plus (js '' '') s"
proof (intro conjI)
  show "cleanHtmlContent html
     = (if html = [] then [] else trim (collapse_ws (without_noise html)))"
    by (rule clean_characterised)
  show "replace_all ws_plus (js '' '') (without_noise html) = collapse_ws (without_noise html)"
    by (rule replace_ws_plus)
  show "replace_all blank_lines [NL] (replace_all ws_plus (js '' '') (without_noise html))
       = replace_all ws_plus (js '' '') (without_noise html)"
    by (simp add: replace_ws_plus blank_lines_identity NL_notin_collapse)
  show "NL \<notin> set (cleanHtmlContent html)" by (rule NL_notin_clean)
  show "set (cleanHtmlContent html) \<inter> {c. isWhiteSpace c} \<subseteq> {0x20}"
    by (rule clean_ws_chars)
  show "replace_all ws_plus (js '' '') s = collapse_ws s" by (rule replace_ws_plus)
  show "set (collapse_ws s) \<inter> {c. isWhiteSpace c} \<subseteq> {0x20}"
    using collapse_ws_chars by auto
  show "replace_all blank_lines [NL] (replace_all ws_plus (js '' '') s)
       = replace_all ws_plus (js '' '') s"
    by (simp add: replace_ws_plus blank_lines_identity NL_notin_collapse)
qed

text \<open>
  At a text of two paragraphs, with a blank line, a tab and a trailing newline: the
  cleaner returns one line with single spaces.
\<close>

theorem cleaner_whitespace_witness:
  "cleanHtmlContent (js ''a '' @ [NL, NL, 0x09] @ js ''b  c'' @ [NL]) = js ''a b c''
   \<and> without_noise (js ''a '' @ [NL, NL, 0x09] @ js ''b  c'' @ [NL])
       = js ''a '' @ [NL, NL, 0x09] @ js ''b  c'' @ [NL]
   \<and> collapse_ws (js ''a '' @ [NL, NL, 0x09] @ js ''b  c'' @ [NL]) = js ''a b c ''
   \<and> NL \<notin> set (cleanHtmlContent (js ''a '' @ [NL, NL, 0x09] @ js ''b  c'' @ [NL]))"
proof -
  let ?t = "js ''a '' @ [NL, NL, 0x09] @ js ''b  c'' @ [NL]"
  have "LT \<notin> set ?t" by (simp add: js_def LT_def NL_def)
  then have w: "without_noise ?t = ?t" by (simp add: without_noise_id plain_no_noise)
  have c: "collapse_ws ?t = js ''a b c ''" by (simp add: js_def NL_def isWhiteSpace_def)
  have t: "trim (js ''a b c '') = js ''a b c''" by (simp add: trim_def js_def isWhiteSpace_def)
  have n: "?t \<noteq> []" by (simp add: js_def)
  have "cleanHtmlContent ?t = (if ?t = [] then [] else trim (collapse_ws (without_noise ?t)))"
    by (rule cleaner_whitespace[THEN conjunct1])
  then have a: "cleanHtmlContent ?t = js ''a b c''" using n w c t by simp
  have b: "NL \<notin> set (cleanHtmlContent ?t)"
    by (rule cleaner_whitespace[THEN conjunct2, THEN conjunct2, THEN conjunct2, THEN conjunct1])
  show ?thesis using a b w c by simp
qed

lemma clean_no_noise: "\<not> has_noise html \<Longrightarrow> cleanHtmlContent html = normalize_ws html"
proof (cases "html = []")
  case True
  then show ?thesis by (simp add: cleanHtmlContent_def normalize_ws_def trim_def)
next
  case False
  assume "\<not> has_noise html"
  then have "without_noise html = html" by (rule without_noise_id)
  with False show ?thesis by (simp add: clean_nonempty normalize_ws_def)
qed

text \<open>
  C8. \<open>cleanHtmlContent\<close> is a total function from strings to strings: every step of it
  (a global replace, \<open>trim\<close>) is defined on every string, well-formed HTML or not. On an
  input in which none of the twelve patterns matches anywhere, and so on every input
  without the character \<open><\<close>, the output is the input with its whitespace normalised:
  every run of whitespace collapsed to one space and the ends trimmed.
\<close>

theorem cleaner_plain_text:
  "(\<not> has_noise html \<longrightarrow> cleanHtmlContent html = normalize_ws html)
   \<and> (LT \<notin> set html \<longrightarrow> \<not> has_noise html \<and> cleanHtmlContent html = normalize_ws html)"
  using clean_no_noise plain_no_noise by blast

theorem cleaner_plain_text_witness:
  "\<not> has_noise (js ''<p>Hi</p>  you'')
   \<and> cleanHtmlContent (js ''<p>Hi</p>  you'') = normalize_ws (js ''<p>Hi</p>  you'')
   \<and> normalize_ws (js ''<p>Hi</p>  you'') = js ''<p>Hi</p> you''
   \<and> LT \<notin> set (js ''a  b '')
   \<and> cleanHtmlContent (js ''a  b '') = normalize_ws (js ''a  b '')
   \<and> normalize_ws (js ''a  b '') = js ''a b''"
proof -
  have a: "\<not> has_noise (js ''<p>Hi</p>  you'')"
    by (simp add: has_noise_def clean_eval)
  have b: "LT \<notin> set (js ''a  b '')" by (simp add: js_def LT_def)
  have c: "normalize_ws (js ''<p>Hi</p>  you'') = js ''<p>Hi</p> you''"
    by (simp add: normalize_ws_def trim_def isWhiteSpace_def js_def)
  have d: "normalize_ws (js ''a  b '') = js ''a b''"
    by (simp add: normalize_ws_def trim_def isWhiteSpace_def js_def)
  show ?thesis
    using cleaner_plain_text[of "js ''<p>Hi</p>  you''"] cleaner_plain_text[of "js ''a  b ''"] a b c d
    by simp
qed

section \<open>The summary extractor: properties\<close>

lemma length_summary: "length (summary limit s) \<le> limit"
  unfolding summary_def using length_trim[of "take limit (stripped s)"] by simp

lemma trim_stripped: "trim (stripped s) = stripped s"
  by (simp add: stripped_def trim_idem)

lemma summary_short: "length (stripped s) \<le> limit \<Longrightarrow> summary limit s = stripped s"
  by (simp add: summary_def trim_stripped)

lemma stripped_chars: "set (stripped s) \<inter> {0x23, 0x2A, 0x60, NL} = {}"
proof -
  let ?a = "replace_all md_markers [] s"
  let ?b = "replace_all nl_plus (js '' '') ?a"
  have a: "set ?a \<inter> {0x23, 0x2A, 0x60} = {}"
    by (auto simp: md_markers_def replace_One_filter isMarker_def)
  have b: "set ?b \<inter> {0x23, 0x2A, 0x60} = {}"
    using a set_replace_nl[of ?a] by auto
  have "NL \<notin> set ?b" by (rule NL_notin_replace_nl)
  with b have "set ?b \<inter> {0x23, 0x2A, 0x60, NL} = {}" by auto
  then show ?thesis
    unfolding stripped_def using set_trim[of ?b] by auto
qed

text \<open>
  C3. For every markdown string and every limit, the displayed summary has at most
  \<open>limit + 3\<close> code units. When the stripped text (markers \<open>#\<close>, \<open>*\<close> and backquote
  removed, every run of newlines replaced by one space, trimmed) has at most \<open>limit\<close> code
  units, it is returned as it is, with no ellipsis, also when its length is exactly the
  limit; when it is longer, the truncated and trimmed text is followed by the ellipsis.
  The decision compares the length of the truncated summary with the length of the
  stripped text; the ellipsis is not counted. The stripped text holds no marker and no
  newline, and it is trimmed.
\<close>

theorem summary_bounded:
  "length (displaySummary limit s) \<le> limit + 3
   \<and> (length (stripped s) \<le> limit \<longrightarrow> displaySummary limit s = stripped s)
   \<and> (limit < length (stripped s) \<longrightarrow>
        displaySummary limit s = trim (take limit (stripped s)) @ js ''...'')
   \<and> displaySummary limit s =
        (if length (trim (take limit (stripped s))) < length (stripped s)
         then trim (take limit (stripped s)) @ js ''...''
         else trim (take limit (stripped s)))
   \<and> stripped s
        = trim (replace_all nl_plus (js '' '') (filter (\<lambda>c. c \<notin> {0x23, 0x2A, 0x60}) s))
   \<and> set (stripped s) \<inter> {0x23, 0x2A, 0x60, NL} = {}
   \<and> trim (stripped s) = stripped s"
proof (intro conjI impI)
  show "length (displaySummary limit s) \<le> limit + 3"
    using length_summary[of limit s] by (simp add: displaySummary_def js_def)
  show "displaySummary limit s = stripped s" if "length (stripped s) \<le> limit"
    using that by (simp add: displaySummary_def summary_short)
  show "displaySummary limit s = trim (take limit (stripped s)) @ js ''...''"
    if "limit < length (stripped s)"
    using that length_summary[of limit s] by (simp add: displaySummary_def summary_def)
  show "displaySummary limit s =
        (if length (trim (take limit (stripped s))) < length (stripped s)
         then trim (take limit (stripped s)) @ js ''...''
         else trim (take limit (stripped s)))"
    by (simp add: displaySummary_def summary_def)
  show "stripped s
        = trim (replace_all nl_plus (js '' '') (filter (\<lambda>c. c \<notin> {0x23, 0x2A, 0x60}) s))"
    by (simp add: stripped_def md_markers_def replace_One_filter isMarker_def)
  show "set (stripped s) \<inter> {0x23, 0x2A, 0x60, NL} = {}" by (rule stripped_chars)
  show "trim (stripped s) = stripped s" by (rule trim_stripped)
qed

theorem summary_bounded_witness:
  "length (stripped (js ''## ab'')) \<le> 2
   \<and> displaySummary 2 (js ''## ab'') = js ''ab''
   \<and> 5 < length (stripped (js ''**ab** cdefg''))
   \<and> displaySummary 5 (js ''**ab** cdefg'') = js ''ab cd...''"
proof -
  have a: "stripped (js ''## ab'') = js ''ab''" by (simp add: summary_eval)
  have b: "stripped (js ''**ab** cdefg'') = js ''ab cdefg''" by (simp add: summary_eval)
  have c: "trim (take 5 (js ''ab cdefg'')) = js ''ab cd''"
    by (simp add: trim_def isWhiteSpace_def js_def)
  have d: "length (js ''ab'') \<le> 2" "5 < length (js ''ab cdefg'')" by (simp_all add: js_def)
  have e: "js ''ab cd'' @ js ''...'' = js ''ab cd...''" by (simp add: js_def)
  show ?thesis
    using summary_bounded[of 2 "js ''## ab''"] summary_bounded[of 5 "js ''**ab** cdefg''"] d
    unfolding a b c e by blast
qed

lemma replace_nl_plus: "replace_all nl_plus (js '' '') s = collapse_nl s"
proof (induction s rule: collapse_nl.induct)
  case 1
  show ?case by (simp add: nl_plus_def)
next
  case (2 c cs)
  then show ?case
    by (auto simp: rmatch_nl_plus drop_takeWhile_len js_def)
qed

lemma stripped_spec:
  "stripped md = trim (collapse_nl (filter (\<lambda>c. c \<notin> {0x23, 0x2A, 0x60}) md))"
  by (simp add: stripped_def md_markers_def replace_One_filter isMarker_def replace_nl_plus)

lemma displaySummary_cases:
  "displaySummary limit md =
     (if limit < length (stripped md) then trim (take limit (stripped md)) @ js ''...''
      else stripped md)"
proof (cases "limit < length (stripped md)")
  case True
  then show ?thesis
    using length_summary[of limit md] by (simp add: displaySummary_def summary_def)
next
  case False
  then show ?thesis by (simp add: displaySummary_def summary_short)
qed

lemma displaySummary_spec: "displaySummary limit md = summary_spec limit md"
  by (simp add: displaySummary_cases summary_spec_def Let_def stripped_spec)

section \<open>The normalizer: properties\<close>

text \<open>
  C4, as the code has it. When no conversion backend is configured, \<open>convertToMarkdown\<close>
  returns the input text itself, whatever the mime type, and leaves the backend state
  alone: the availability check comes before the cleaner, which does not run.
\<close>

theorem convert_unavailable_raw:
  "convertToMarkdown (Some c) None mimeType s = (Inr (Str c), s)"
  by (simp add: convertToMarkdown_def)

text \<open>
  C4 as stated fails: on a text that is neither empty nor blank, with the HTML mime type
  and no backend, the result is the raw text with its script element, not the cleaned
  text, and the two differ by more than whitespace.
\<close>

theorem convert_unavailable_not_cleaned:
  "convertToMarkdown (Some (js ''<script>x</script>hi'')) None (js ''text/html'') ()
     = (Inr (Str (js ''<script>x</script>hi'')), ())
   \<and> js ''<script>x</script>hi'' \<noteq> []
   \<and> trim (js ''<script>x</script>hi'') \<noteq> []
   \<and> cleanHtmlContent (js ''<script>x</script>hi'') = js ''hi''
   \<and> normalize_ws (js ''<script>x</script>hi'') \<noteq> cleanHtmlContent (js ''<script>x</script>hi'')"
  by (simp add: convertToMarkdown_def normalize_ws_def clean_eval)

lemma convert_attempt_cases:
  assumes "toMarkdown s (submitted mimeType c) mimeType = (out, s')"
  shows "convert_attempt toMarkdown c mimeType s =
     (case out of
        Rejects \<Rightarrow> Inl BackendError
      | Resolves None \<Rightarrow> Inr (Str c)
      | Resolves (Some []) \<Rightarrow> Inr (Str c)
      | Resolves (Some (None # rest)) \<Rightarrow> Inl TypeError
      | Resolves (Some (Some conversion # rest)) \<Rightarrow>
          if format conversion = js ''markdown'' \<and> truthy (data conversion)
          then Inr (data conversion) else Inr (Str c), s')"
  using assms by (simp add: convert_attempt_def submitted_def Let_def)

lemma convert_failed:
  assumes "toMarkdown s (submitted mimeType c) mimeType = (out, s')" "conversion_failed out"
  shows "fst (convertToMarkdown (Some c) (Some toMarkdown) mimeType s) = Inr (Str c)"
  using assms
  by (auto simp: convertToMarkdown_def convert_attempt_cases conversion_failed_def
      split: ai_outcome.splits option.splits list.splits if_splits)

lemma convert_succeeded:
  assumes "toMarkdown s (submitted mimeType c) mimeType = (out, s')" "\<not> conversion_failed out"
    "c \<noteq> []" "trim c \<noteq> []"
  shows "\<exists>conversion rest. out = Resolves (Some (Some conversion # rest))
     \<and> format conversion = js ''markdown'' \<and> truthy (data conversion)
     \<and> convertToMarkdown (Some c) (Some toMarkdown) mimeType s = (Inr (data conversion), s')"
  using assms
  by (auto simp: convertToMarkdown_def convert_attempt_cases conversion_failed_def
      split: ai_outcome.splits option.splits list.splits if_splits)

lemma convert_total: "\<exists>v. fst (convertToMarkdown content env mimeType s) = Inr v"
  by (auto simp: convertToMarkdown_def split: option.splits prod.splits sum.splits)

text \<open>
  C5, as the code has it. No call of \<open>convertToMarkdown\<close> raises. With a backend
  configured, a call that rejects (throws, times out), resolves with nothing, with an
  empty list, with a first entry that is \<open>null\<close>, or with a first entry whose format is
  not \<open>markdown\<close> or whose data is empty is a failed conversion, and the result is then
  the original input text, also when the cleaned text was what the backend received. On
  a text that is neither empty nor blank, every other outcome is a non-empty list whose
  first entry has the format \<open>markdown\<close> and non-empty data, and that data is the result.
\<close>

theorem convert_fallback_is_original:
  "(\<exists>v. fst (convertToMarkdown content env mimeType s) = Inr v)
   \<and> (toMarkdown s (submitted mimeType c) mimeType = (out, s') \<longrightarrow> conversion_failed out \<longrightarrow>
        fst (convertToMarkdown (Some c) (Some toMarkdown) mimeType s) = Inr (Str c))
   \<and> (toMarkdown s (submitted mimeType c) mimeType = (out, s') \<longrightarrow> \<not> conversion_failed out \<longrightarrow>
        c \<noteq> [] \<longrightarrow> trim c \<noteq> [] \<longrightarrow>
        (\<exists>conversion rest. out = Resolves (Some (Some conversion # rest))
           \<and> format conversion = js ''markdown'' \<and> truthy (data conversion)
           \<and> convertToMarkdown (Some c) (Some toMarkdown) mimeType s
               = (Inr (data conversion), s')))"
proof (intro conjI impI)
  show "\<exists>v. fst (convertToMarkdown content env mimeType s) = Inr v"
    by (rule convert_total)
next
  assume "toMarkdown s (submitted mimeType c) mimeType = (out, s')" "conversion_failed out"
  then show "fst (convertToMarkdown (Some c) (Some toMarkdown) mimeType s) = Inr (Str c)"
    by (rule convert_failed)
next
  assume "toMarkdown s (submitted mimeType c) mimeType = (out, s')" "\<not> conversion_failed out"
    "c \<noteq> []" "trim c \<noteq> []"
  then show "\<exists>conversion rest. out = Resolves (Some (Some conversion # rest))
           \<and> format conversion = js ''markdown'' \<and> truthy (data conversion)
           \<and> convertToMarkdown (Some c) (Some toMarkdown) mimeType s
               = (Inr (data conversion), s')"
    by (rule convert_succeeded)
qed

theorem convert_fallback_witness:
  "rejecting () (submitted (js ''text/html'') (js ''<nav>x</nav>hi'')) (js ''text/html'')
     = (Rejects, ())
   \<and> conversion_failed Rejects
   \<and> fst (convertToMarkdown (Some (js ''<nav>x</nav>hi'')) (Some rejecting) (js ''text/html'') ())
       = Inr (Str (js ''<nav>x</nav>hi''))"
  using convert_fallback_is_original [where toMarkdown = rejecting and s = "()" and s' = "()"
      and mimeType = "js ''text/html''" and c = "js ''<nav>x</nav>hi''" and out = Rejects]
  by (simp add: rejecting_def conversion_failed_def)

text \<open>
  C5 as stated fails where it names the cleaned text as the fallback: with the HTML mime
  type and a backend whose call rejects, a text with a \<open>nav\<close> element comes back as it
  was, not as the cleaned text.
\<close>

theorem convert_failed_not_cleaned:
  "fst (convertToMarkdown (Some (js ''<nav>x</nav>hi'')) (Some rejecting) (js ''text/html'') ())
       = Inr (Str (js ''<nav>x</nav>hi''))
   \<and> cleanHtmlContent (js ''<nav>x</nav>hi'') = js ''hi''
   \<and> fst (convertToMarkdown (Some (js ''<nav>x</nav>hi'')) (Some rejecting) (js ''text/html'') ())
       \<noteq> Inr (Str (cleanHtmlContent (js ''<nav>x</nav>hi'')))"
proof -
  have a: "js ''<nav>x</nav>hi'' \<noteq> []" "trim (js ''<nav>x</nav>hi'') \<noteq> []"
    by (simp_all add: js_def trim_def isWhiteSpace_def)
  have b: "cleanHtmlContent (js ''<nav>x</nav>hi'') = js ''hi''"
    by (simp add: clean_eval)
  have c: "fst (convertToMarkdown (Some (js ''<nav>x</nav>hi'')) (Some rejecting) (js ''text/html'') ())
       = Inr (Str (js ''<nav>x</nav>hi''))"
    using a by (simp add: convertToMarkdown_def convert_attempt_def rejecting_def Let_def)
  have d: "js ''<nav>x</nav>hi'' \<noteq> js ''hi''" by (simp add: js_def)
  show ?thesis using b c d by simp
qed

section \<open>Capability activation: properties\<close>

lemma default_enabled_alt:
  "(case catalog t of Some i \<Rightarrow> enabled i | None \<Rightarrow> False) = (t \<in> default_enabled catalog)"
  by (auto simp: default_enabled_def split: option.splits)

text \<open>
  C6, as the code has it. \<open>shouldRegisterTool\<close> is a function of the catalog, the
  parsed list and the tool id, so every id has one outcome. A comma-separated string is
  parsed into its trimmed entries, the empty ones left out, and an absent or empty string
  gives no list; an array is taken as it is, neither trimmed nor filtered. When the
  parsed list is present and not empty, the active ids are the members of the list,
  whatever the catalog says; when it is absent or empty, they are the catalog entries
  whose \<open>enabled\<close> flag is set.
\<close>

theorem resolve_activation:
  "(parsedEnabledTools toolsParam = Some tools \<longrightarrow> tools \<noteq> [] \<longrightarrow>
      resolve catalog toolsParam = set tools
      \<and> resolve catalog' toolsParam = resolve catalog toolsParam)
   \<and> (parsedEnabledTools toolsParam = None \<or> parsedEnabledTools toolsParam = Some [] \<longrightarrow>
      resolve catalog toolsParam = default_enabled catalog)
   \<and> shouldRegisterTool catalog (parsedEnabledTools toolsParam) toolId
      = (toolId \<in> resolve catalog toolsParam)
   \<and> parsedEnabledTools None = None
   \<and> parsedEnabledTools (Some (ToolsString [])) = None
   \<and> (str \<noteq> [] \<longrightarrow> parsedEnabledTools (Some (ToolsString str))
        = Some (filter (\<lambda>t. t \<noteq> []) (map trim (split_on 0x2C str))))
   \<and> parsedEnabledTools (Some (ToolsArray arr)) = Some arr
   \<and> resolve catalog None = default_enabled catalog
   \<and> resolve catalog (Some (ToolsString str))
      = (if filter (\<lambda>t. t \<noteq> []) (map trim (split_on 0x2C str)) = []
         then default_enabled catalog
         else set (filter (\<lambda>t. t \<noteq> []) (map trim (split_on 0x2C str))))
   \<and> resolve catalog (Some (ToolsArray arr))
      = (if arr = [] then default_enabled catalog else set arr)"
proof -
  have e: "filter (\<lambda>t. t \<noteq> []) (map trim (split_on 0x2C [])) = []"
    by (simp add: trim_def)
  have s: "resolve catalog (Some (ToolsString str))
      = (if filter (\<lambda>t. t \<noteq> []) (map trim (split_on 0x2C str)) = []
         then default_enabled catalog
         else set (filter (\<lambda>t. t \<noteq> []) (map trim (split_on 0x2C str))))"
  proof (cases "str = []")
    case True
    have "resolve catalog (Some (ToolsString [])) = default_enabled catalog"
      by (simp add: resolve_def shouldRegisterTool_def default_enabled_alt
          parsedEnabledTools_def)
    with True e show ?thesis by simp
  next
    case False
    define xs where "xs = filter (\<lambda>t. t \<noteq> []) (map trim (split_on 0x2C str))"
    from False have p: "parsedEnabledTools (Some (ToolsString str)) = Some xs"
      by (simp add: parsedEnabledTools_def xs_def)
    have "resolve catalog (Some (ToolsString str))
        = (if xs = [] then default_enabled catalog else set xs)"
      unfolding resolve_def p by (auto simp: shouldRegisterTool_def default_enabled_alt)
    then show ?thesis by (simp add: xs_def)
  qed
  have r: "(parsedEnabledTools toolsParam = Some tools \<longrightarrow> tools \<noteq> [] \<longrightarrow>
      resolve catalog toolsParam = set tools
      \<and> resolve catalog' toolsParam = resolve catalog toolsParam)
   \<and> (parsedEnabledTools toolsParam = None \<or> parsedEnabledTools toolsParam = Some [] \<longrightarrow>
      resolve catalog toolsParam = default_enabled catalog)
   \<and> shouldRegisterTool catalog (parsedEnabledTools toolsParam) toolId
      = (toolId \<in> resolve catalog toolsParam)
   \<and> parsedEnabledTools None = None
   \<and> parsedEnabledTools (Some (ToolsString [])) = None
   \<and> (str \<noteq> [] \<longrightarrow> parsedEnabledTools (Some (ToolsString str))
        = Some (filter (\<lambda>t. t \<noteq> []) (map trim (split_on 0x2C str))))
   \<and> parsedEnabledTools (Some (ToolsArray arr)) = Some arr
   \<and> resolve catalog None = default_enabled catalog
   \<and> resolve catalog (Some (ToolsArray arr))
      = (if arr = [] then default_enabled catalog else set arr)"
    by (auto simp: resolve_def shouldRegisterTool_def default_enabled_alt parsedEnabledTools_def)
  show ?thesis using r s by blast
qed

theorem resolve_activation_witness:
  "parsedEnabledTools (Some (ToolsString (js ''crawling_exa, ,deep_search_exa'')))
     = Some [js ''crawling_exa'', js ''deep_search_exa'']
   \<and> resolve (map_of availableTools) (Some (ToolsString (js ''crawling_exa, ,deep_search_exa'')))
     = {js ''crawling_exa'', js ''deep_search_exa''}
   \<and> parsedEnabledTools (Some (ToolsString (js '' , ''))) = Some []
   \<and> resolve (map_of availableTools) (Some (ToolsString (js '' , '')))
     = default_enabled (map_of availableTools)
   \<and> resolve (map_of availableTools) None = default_enabled (map_of availableTools)"
proof -
  have p: "parsedEnabledTools (Some (ToolsString (js ''crawling_exa, ,deep_search_exa'')))
     = Some [js ''crawling_exa'', js ''deep_search_exa'']"
    by (simp add: parsedEnabledTools_def js_def trim_def isWhiteSpace_def)
  have q: "parsedEnabledTools (Some (ToolsString (js '' , ''))) = Some []"
    by (simp add: parsedEnabledTools_def js_def trim_def isWhiteSpace_def)
  have a: "resolve (map_of availableTools) (Some (ToolsString (js ''crawling_exa, ,deep_search_exa'')))
     = set [js ''crawling_exa'', js ''deep_search_exa'']"
    using p resolve_activation [of "Some (ToolsString (js ''crawling_exa, ,deep_search_exa''))"
        "[js ''crawling_exa'', js ''deep_search_exa'']" "map_of availableTools"
        "map_of availableTools" "[]" "[]" "[]"]
    by simp
  have b: "resolve (map_of availableTools) (Some (ToolsString (js '' , '')))
     = default_enabled (map_of availableTools)"
    using q resolve_activation [of "Some (ToolsString (js '' , ''))" "[]" "map_of availableTools"
        "map_of availableTools" "[]" "[]" "[]"]
    by simp
  have c: "resolve (map_of availableTools) None = default_enabled (map_of availableTools)"
    using resolve_activation [of None "[]" "map_of availableTools" "map_of availableTools"
        "[]" "[]" "[]"]
    by simp
  show ?thesis using p q a b c by simp
qed

text \<open>
  C6 as stated fails on an array: the array whose one entry is the empty string is empty
  once its empty entries are left out, so the claim promises the default-enabled tools,
  among them \<open>web_search_exa\<close>; the code takes the array as it is, finds it not empty,
  and activates the members of the array only.
\<close>

theorem resolve_array_not_filtered:
  "parsedEnabledTools (Some (ToolsArray [[]])) = Some [[]]
   \<and> filter (\<lambda>t. t \<noteq> []) (map trim [[]]) = []
   \<and> resolve (map_of availableTools) (Some (ToolsArray [[]])) = {[]}
   \<and> js ''web_search_exa'' \<in> default_enabled (map_of availableTools)
   \<and> js ''web_search_exa'' \<notin> resolve (map_of availableTools) (Some (ToolsArray [[]]))"
proof -
  have a: "parsedEnabledTools (Some (ToolsArray [[]])) = Some [[]]"
    by (simp add: parsedEnabledTools_def)
  have b: "filter (\<lambda>t. t \<noteq> []) (map trim [[]]) = []" by (simp add: trim_def)
  have c: "resolve (map_of availableTools) (Some (ToolsArray [[]])) = {[]}"
    by (auto simp: resolve_def shouldRegisterTool_def a)
  have d: "js ''web_search_exa'' \<in> default_enabled (map_of availableTools)"
    by (simp add: default_enabled_def availableTools_def js_def)
  have e: "js ''web_search_exa'' \<noteq> []" by (simp add: js_def)
  show ?thesis using a b c d e by simp
qed

section \<open>The aggregator: properties\<close>

lemma count_list_append: "count_list (xs @ ys) a = count_list xs a + count_list ys a"
  by (induction xs) auto

text \<open>
  C7. On an absent or empty list of results the aggregator returns, without an error and
  without calling the backend, the one message that quotes the query: the query is a part
  of it, and it has no newline and no \<open>#\<close> (so no section heading) but those of the
  query itself.
\<close>

theorem aggregate_empty:
  "formatSearchResultsToMarkdown fmt None q env s
     = (Inr (js ''No search results found for '' @ [DQ] @ q @ [DQ] @ js ''.''), s)
   \<and> formatSearchResultsToMarkdown fmt (Some []) q env s
     = (Inr (js ''No search results found for '' @ [DQ] @ q @ [DQ] @ js ''.''), s)
   \<and> sublist q (no_results_message q)
   \<and> count_list (no_results_message q) NL = count_list q NL
   \<and> count_list (no_results_message q) 0x23 = count_list q 0x23"
proof -
  have "sublist q (no_results_message q)"
    unfolding no_results_message_def sublist_def by (metis append.assoc)
  moreover have "count_list (no_results_message q) NL = count_list q NL"
    by (simp add: no_results_message_def js_def NL_def DQ_def)
  moreover have "count_list (no_results_message q) 0x23 = count_list q 0x23"
    by (simp add: no_results_message_def js_def NL_def DQ_def)
  ultimately show ?thesis
    by (simp add: formatSearchResultsToMarkdown_def no_results_message_def)
qed

lemma render_results_prefix:
  "render_results fmt env rs md s = (Inr out, s') \<Longrightarrow> prefix md out"
proof (induction rs arbitrary: md s)
  case Nil
  then show ?case by simp
next
  case (Cons r rs)
  obtain v s1 where c: "render_item fmt env r s = (v, s1)" by force
  show ?case
  proof (cases v)
    case (Inl e)
    with Cons.prems c show ?thesis by simp
  next
    case (Inr sec)
    with Cons.prems c have "render_results fmt env rs (md @ sec) s1 = (Inr out, s')" by simp
    then have "prefix (md @ sec) out" by (rule Cons.IH)
    then show ?thesis by (rule append_prefixD)
  qed
qed

lemma format_nonempty_starts:
  assumes "rs \<noteq> []" "formatSearchResultsToMarkdown fmt (Some rs) q env s = (Inr out, s')"
  shows "prefix (js ''## '') out"
proof -
  from assms obtain md where r: "render_results fmt env (take 10 rs) (header q) s = (Inr md, s')"
    and out: "out = md @ overflow_note (length rs)"
    by (auto simp: formatSearchResultsToMarkdown_def split: prod.splits sum.splits)
  from r have "prefix (header q) md" by (rule render_results_prefix)
  moreover have "prefix (js ''## '') (header q)" by (simp add: header_def)
  ultimately have "prefix (js ''## '') md" by (rule prefix_order.trans[rotated])
  then show ?thesis using out by (simp add: prefix_prefix)
qed

lemma render_result_Str: "render_result fmt r (Str m) = Inr (item_section fmt r m)"
  by (simp add: render_result_def item_section_def title_line_def displaySummary_spec)

lemma render_item_normal:
  "convertToMarkdown (result_text r) env (js ''text/html'') s = (Inr (Str m), s1) \<Longrightarrow>
   render_item fmt env r s = (Inr (item_section fmt r m), s1)"
  by (simp add: render_item_def render_result_Str)











lemma convert_sample_item:
  "convertToMarkdown (result_text (sample_item n)) None m s = (Inr (Str (js ''x'')), s)"
  by (simp add: sample_item_def convertToMarkdown_def)
















lemma render_item_null_text:
  "result_text r = None \<Longrightarrow> render_item fmt env r s = (Inl TypeError, s)"
  by (simp add: render_item_def convertToMarkdown_def render_result_def render_fallback_def)

lemma render_results_null_text:
  "i < length rs \<Longrightarrow> result_text (rs ! i) = None \<Longrightarrow>
   \<exists>e s'. render_results fmt env rs md s = (Inl e, s')"
proof (induction rs arbitrary: i md s)
  case Nil
  then show ?case by simp
next
  case (Cons r rs)
  show ?case
  proof (cases i)
    case 0
    with Cons.prems show ?thesis by (simp add: render_item_null_text)
  next
    case (Suc j)
    obtain v s1 where c: "render_item fmt env r s = (v, s1)" by force
    show ?thesis
    proof (cases v)
      case (Inl e)
      with c show ?thesis by simp
    next
      case (Inr sec)
      from Suc Cons.prems have "j < length rs" "result_text (rs ! j) = None" by simp_all
      from Cons.IH[OF this, of "md @ sec" s1] obtain e s' where
        "render_results fmt env rs (md @ sec) s1 = (Inl e, s')" by blast
      with c Inr show ?thesis by simp
    qed
  qed
qed

lemma null_text_escapes:
  assumes "i < length rs" "i < 10" "result_text (rs ! i) = None"
  shows "\<exists>e s'. formatSearchResultsToMarkdown fmt (Some rs) q env s = (Inl e, s')"
proof -
  from assms have "i < length (take 10 rs)" "result_text (take 10 rs ! i) = None" by simp_all
  from render_results_null_text[OF this, of fmt env "header q" s] obtain e s' where
    "render_results fmt env (take 10 rs) (header q) s = (Inl e, s')" by blast
  moreover from assms have "rs \<noteq> []" by auto
  ultimately show ?thesis by (simp add: formatSearchResultsToMarkdown_def)
qed

lemma render_item_string_text:
  assumes "result_text r = Some t"
  shows "\<exists>sec s'. render_item fmt env r s = (Inr sec, s')"
proof -
  obtain v s2 where c: "convertToMarkdown (result_text r) env (js ''text/html'') s = (v, s2)"
    by force
  show ?thesis
    using assms c
    by (cases "case v of Inl e \<Rightarrow> Inl e | Inr t \<Rightarrow> render_result fmt r t")
      (simp_all add: render_item_def render_fallback_def)
qed

lemma render_item_not_string:
  assumes "result_text r = Some t"
    "convertToMarkdown (result_text r) env (js ''text/html'') s = (Inr Obj, s')"
  shows "render_item fmt env r s
     = (Inr (js ''### ['' @ title r @ js ''](''  @ url r @ js '')'' @ [NL]
             @ take 200 t @ js ''...'' @ [NL, NL]), s')"
  using assms
  by (simp add: render_item_def render_result_def render_fallback_def title_line_def)

lemma render_results_string_texts:
  "list_all (\<lambda>r. result_text r \<noteq> None) rs \<Longrightarrow>
   \<exists>out s'. render_results fmt env rs md s = (Inr out, s')"
proof (induction rs arbitrary: md s)
  case Nil
  then show ?case by simp
next
  case (Cons r rs)
  then obtain t where "result_text r = Some t" by auto
  from render_item_string_text[OF this, of fmt env s] obtain sec s1 where
    c: "render_item fmt env r s = (Inr sec, s1)" by blast
  from Cons have "list_all (\<lambda>r. result_text r \<noteq> None) rs" by simp
  from Cons.IH[OF this, of "md @ sec" s1] obtain out s' where
    "render_results fmt env rs (md @ sec) s1 = (Inr out, s')" by blast
  with c show ?case by simp
qed

lemma string_texts_never_raise:
  assumes "list_all (\<lambda>r. result_text r \<noteq> None) rs"
  shows "\<exists>out s'. formatSearchResultsToMarkdown fmt (Some rs) q env s = (Inr out, s')"
proof (cases "rs = []")
  case True
  then show ?thesis by (simp add: formatSearchResultsToMarkdown_def)
next
  case False
  from assms have "list_all (\<lambda>r. result_text r \<noteq> None) (take 10 rs)"
    by (auto simp: list_all_iff dest: in_set_takeD)
  from render_results_string_texts[OF this, of fmt env "header q" s] obtain out s' where
    "render_results fmt env (take 10 rs) (header q) s = (Inr out, s')" by blast
  with False show ?thesis by (simp add: formatSearchResultsToMarkdown_def)
qed

text \<open>
  C1, at the input where the code departs from it. A result whose text is \<open>null\<close> makes
  the normalizer return \<open>null\<close>, \<open>cleanText.replace\<close> raise, and then the fallback of
  the \<open>catch\<close> block raise as well, on \<open>result.text.substring\<close>: the exception leaves
  the loop and the aggregator, and no result is rendered, not even those with a text.
  The same three results with a string for the second text are rendered.
  (\<open>null_text_escapes\<close> above is the general statement; \<open>string_texts_never_raise\<close> and
  \<open>render_item_not_string\<close> are what holds when every text is a string.)
\<close>

theorem aggregate_null_text_raises:
  "fst (formatSearchResultsToMarkdown (\<lambda>d. d) (Some null_text_results) (js ''foo'') None ())
     = Inl TypeError
   \<and> result_text (null_text_results ! 1) = None
   \<and> length null_text_results = 3
   \<and> (\<exists>out. fst (formatSearchResultsToMarkdown (\<lambda>d. d)
                   (Some [sample_item 1, sample_item 2, sample_item 3]) (js ''foo'') None ())
              = Inr out)"
proof -
  have "list_all (\<lambda>r. result_text r \<noteq> None) [sample_item 1, sample_item 2, sample_item 3]"
    by (simp add: sample_item_def)
  from string_texts_never_raise[OF this, of "\<lambda>d. d" "js ''foo''" None "()"]
  have c: "\<exists>out. fst (formatSearchResultsToMarkdown (\<lambda>d. d)
                   (Some [sample_item 1, sample_item 2, sample_item 3]) (js ''foo'') None ())
              = Inr out"
    by auto
  have a: "render_item (\<lambda>d. d) None (sample_item n) ()
      = (Inr (item_section (\<lambda>d. d) (sample_item n) (js ''x'')), ())" for n
    by (rule render_item_normal) (rule convert_sample_item)
  have b: "render_item (\<lambda>d. d) None ((sample_item 2)\<lparr>result_text := None\<rparr>) () = (Inl TypeError, ())"
    by (simp add: render_item_def convertToMarkdown_def render_result_def render_fallback_def)
  have "render_results (\<lambda>d. d) None null_text_results (header (js ''foo'')) () = (Inl TypeError, ())"
    by (simp add: null_text_results_def a b)
  then have "fst (formatSearchResultsToMarkdown (\<lambda>d. d) (Some null_text_results) (js ''foo'') None ())
     = Inl TypeError"
    by (simp add: formatSearchResultsToMarkdown_def null_text_results_def)
  moreover have "result_text (null_text_results ! 1) = None" "length null_text_results = 3"
    by (simp_all add: null_text_results_def)
  ultimately show ?thesis using c by simp
qed

section \<open>The web search tool: properties\<close>

lemma empty_text_differs: "empty_result_text \<noteq> no_results_message q"
  by (simp add: empty_result_text_def no_results_message_def js_def DQ_def)

lemma header_text_differs: "prefix (js ''## '') out \<Longrightarrow> out \<noteq> no_results_message q"
  by (cases out) (simp_all add: no_results_message_def js_def)

lemma no_results_hd: "hd (no_results_message q) = 0x4E"
  by (simp add: no_results_message_def js_def)

lemma search_error_differs: "js ''Search error'' @ rest \<noteq> no_results_message q"
proof
  assume "js ''Search error'' @ rest = no_results_message q"
  then have "hd (js ''Search error'' @ rest) = hd (no_results_message q)" by simp
  then show False by (simp add: no_results_hd) (simp add: js_def)
qed

lemma handler_axios:
  "\<exists>rest. content_text (fst (web_search_exa fmt message_of env query (AxiosError e) s))
     = js ''Search error'' @ rest"
  by (simp add: web_search_exa_def Let_def js_def)

lemma handler_other:
  "\<exists>rest. content_text (fst (web_search_exa fmt message_of env query (OtherError m) s))
     = js ''Search error'' @ rest"
  by (simp add: web_search_exa_def js_def)

lemma handler_empty:
  "d = None \<or> (\<exists>d'. d = Some d' \<and> (results d' = None \<or> results d' = Some [])) \<Longrightarrow>
   web_search_exa fmt message_of env query (Response d) s
     = (\<lparr>content_text = empty_result_text, isError = False\<rparr>, s)"
  by (auto simp: web_search_exa_def)

lemma handler_results:
  assumes "d = Some d'" "results d' = Some rs" "rs \<noteq> []"
  shows "web_search_exa fmt message_of env query (Response d) s =
     (case formatSearchResultsToMarkdown fmt (Some rs) query env s of
        (Inr markdownContent, s') \<Rightarrow> (\<lparr>content_text = markdownContent, isError = False\<rparr>, s')
      | (Inl error, s') \<Rightarrow>
          (\<lparr>content_text = js ''Search error: '' @ message_of error, isError = True\<rparr>, s'))"
  using assms by (simp add: web_search_exa_def)

lemma handler_never_aggregator_empty:
  "content_text (fst (web_search_exa fmt message_of env query response s)) \<noteq> no_results_message q"
proof (cases response)
  case (AxiosError e)
  obtain rest where
    "content_text (fst (web_search_exa fmt message_of env query (AxiosError e) s)) = js ''Search error'' @ rest"
    using handler_axios[of fmt message_of env query e s] by blast
  with AxiosError show ?thesis by (simp add: search_error_differs)
next
  case (OtherError m)
  obtain rest where
    "content_text (fst (web_search_exa fmt message_of env query (OtherError m) s)) = js ''Search error'' @ rest"
    using handler_other[of fmt message_of env query m s] by blast
  with OtherError show ?thesis by (simp add: search_error_differs)
next
  case (Response d)
  show ?thesis
  proof (cases "\<exists>d' rs. d = Some d' \<and> results d' = Some rs \<and> rs \<noteq> []")
    case False
    have "d = None \<or> (\<exists>d'. d = Some d' \<and> (results d' = None \<or> results d' = Some []))"
    proof (cases d)
      case None
      then show ?thesis by simp
    next
      case (Some d')
      show ?thesis
      proof (cases "results d'")
        case None
        with Some show ?thesis by simp
      next
        case (Some rs)
        with False \<open>d = Some d'\<close> have "rs = []" by blast
        with Some \<open>d = Some d'\<close> show ?thesis by simp
      qed
    qed
    then have e: "web_search_exa fmt message_of env query (Response d) s
        = (\<lparr>content_text = empty_result_text, isError = False\<rparr>, s)"
      by (rule handler_empty)
    show ?thesis using Response e by (simp add: empty_text_differs)
  next
    case True
    then obtain d' rs where d: "d = Some d'" "results d' = Some rs" "rs \<noteq> []" by blast
    obtain res s' where f: "formatSearchResultsToMarkdown fmt (Some rs) query env s = (res, s')"
      by (cases "formatSearchResultsToMarkdown fmt (Some rs) query env s")
    show ?thesis
    proof (cases res)
      case (Inl e)
      have a: "js ''Search error: '' @ message_of e = js ''Search error'' @ (js '': '' @ message_of e)"
        by (simp add: js_def)
      have "content_text (fst (web_search_exa fmt message_of env query (Response d) s))
          = js ''Search error: '' @ message_of e"
        unfolding handler_results[OF d] f Inl by simp
      then have "content_text (fst (web_search_exa fmt message_of env query response s))
          = js ''Search error'' @ (js '': '' @ message_of e)"
        using Response a by simp
      then show ?thesis by (simp add: search_error_differs)
    next
      case (Inr out)
      with f have "formatSearchResultsToMarkdown fmt (Some rs) query env s = (Inr out, s')" by simp
      with d(3) have "prefix (js ''## '') out" by (rule format_nonempty_starts)
      then have o: "out \<noteq> no_results_message q" by (rule header_text_differs)
      have "content_text (fst (web_search_exa fmt message_of env query (Response d) s)) = out"
        unfolding handler_results[OF d] f Inr by simp
      then show ?thesis using Response o by simp
    qed
  qed
qed

text \<open>
  C10. When the search API answers without data, without a \<open>results\<close> field or with
  an empty list, the handler of \<open>web_search_exa\<close> returns the fixed text
  \<open>No search results found. Please try a different query.\<close> and no error flag, whatever
  the query. Whatever the API answers, the text the handler returns is never the message
  of the aggregator for an empty list, for any query: that branch of the aggregator is
  not reached through this tool.
\<close>

theorem web_search_empty_results:
  "web_search_exa fmt message_of env query (Response None) s
     = (\<lparr>content_text = js ''No search results found. Please try a different query.'',
         isError = False\<rparr>, s)
   \<and> web_search_exa fmt message_of env query (Response (Some \<lparr>results = None\<rparr>)) s
     = (\<lparr>content_text = js ''No search results found. Please try a different query.'',
         isError = False\<rparr>, s)
   \<and> web_search_exa fmt message_of env query (Response (Some \<lparr>results = Some []\<rparr>)) s
     = (\<lparr>content_text = js ''No search results found. Please try a different query.'',
         isError = False\<rparr>, s)
   \<and> content_text (fst (web_search_exa fmt message_of env query response s)) \<noteq> no_results_message q"
proof (intro conjI)
  show "content_text (fst (web_search_exa fmt message_of env query response s)) \<noteq> no_results_message q"
    by (rule handler_never_aggregator_empty)
qed (simp_all add: handler_empty empty_result_text_def)

end
